theory Spec2Isabelle
  imports Complex_Main
begin

section \<open>Python values shared by the models\<close>

text \<open>
  The values the modelled code stores in its \<open>Any\<close>-typed dictionaries: strings,
  integers, booleans and \<open>None\<close>.
\<close>

datatype pyval = PyStr string | PyInt int | PyBool bool | PyNone

text \<open>
  Calling an \<open>async def\<close> function yields a coroutine object; only \<open>await\<close> runs it
  and produces its value. \<open>Awaited v\<close> is the value of an awaited call, \<open>Coroutine v\<close>
  the coroutine object of a call that was not awaited (\<open>v\<close> is what awaiting it would
  have produced).
\<close>

datatype 'a awaitable = Awaited 'a | Coroutine 'a

text \<open>
  Truth value of the result of a call returning \<open>bool\<close>. A coroutine object
  defines neither \<open>__bool__\<close> nor \<open>__len__\<close>, so it is always true.
\<close>

fun truthy :: "bool awaitable \<Rightarrow> bool" where
  "truthy (Awaited b) = b"
| "truthy (Coroutine b) = True"

text \<open>
  \<open>x == s\<close> for the result \<open>x\<close> of a call returning \<open>str\<close> and an attribute
  \<open>s\<close> holding a string or \<open>None\<close>. A coroutine object compares by identity, so
  it equals neither a string nor \<open>None\<close>.
\<close>

fun py_eq :: "string awaitable \<Rightarrow> string option \<Rightarrow> bool" where
  "py_eq (Awaited x) s = (s = Some x)"
| "py_eq (Coroutine x) s = False"

section \<open>Query Builder (\<open>src/search_expr.py\<close>)\<close>

text \<open>
  The configuration dictionary. A rule's \<open>logic\<close> dictionary has the optional keys
  \<open>and\<close>, \<open>or\<close> and \<open>alone\<close>; a rule has the optional keys \<open>field\<close>, \<open>logic\<close>
  and \<open>date\<close>. An absent key is \<open>None\<close>. The \<open>ranges\<close> list of a date rule reads
  the same absent or empty (\<open>date_logic.get("ranges")\<close> is tested for truth), and so do
  the top-level lists \<open>to_be\<close>, \<open>groups\<close> and \<open>not_to_be\<close> (read with \<open>.get\<close> and
  an empty default); a date range carries both \<open>from\<close> and \<open>to\<close>.
\<close>

record logic =
  l_and :: "string list option"
  l_or :: "string list option"
  l_alone :: "string list option"

record date_range =
  dr_from :: string
  dr_to :: string

record rule =
  r_field :: "string option"
  r_logic :: "logic option"
  r_date :: "date_range list option"

record config =
  to_be :: "rule list"
  groups :: "string list list"
  not_to_be :: "rule list"

text \<open>A value of \<open>positive_rules_map\<close>: a logic dictionary or the date clause string.\<close>

datatype rule_value = Logic logic | Clause string

datatype build_error = AttributeError

definition empty_logic :: logic where
  "empty_logic = \<lparr>l_and = None, l_or = None, l_alone = None\<rparr>"

text \<open>\<open>d.get(key, [])\<close> on a logic dictionary.\<close>

definition get_list :: "string list option \<Rightarrow> string list" where
  "get_list v = (case v of None \<Rightarrow> [] | Some xs \<Rightarrow> xs)"

text \<open>\<open>sep.join(parts)\<close>.\<close>

fun join :: "string \<Rightarrow> string list \<Rightarrow> string" where
  "join sep [] = []"
| "join sep [x] = x"
| "join sep (x # y # ys) = x @ sep @ join sep (y # ys)"

text \<open>The f-strings of \<open>build\<close>.\<close>

definition field_clause :: "string \<Rightarrow> string \<Rightarrow> string" where
  \<open>field_clause field_name kw = field_name @ '':"'' @ kw @ ''"''\<close>

definition not_clause :: "string \<Rightarrow> string \<Rightarrow> string" where
  \<open>not_clause field_name kw = ''NOT '' @ field_name @ '':"'' @ kw @ ''"''\<close>

definition date_clause :: "date_range \<Rightarrow> string" where
  "date_clause d = ''date:['' @ dr_from d @ '' TO '' @ dr_to d @ '']''"

text \<open>One iteration of the first loop of \<open>build\<close>, over \<open>to_be\<close>.\<close>

definition add_rule :: "(string \<rightharpoonup> rule_value) \<Rightarrow> rule \<Rightarrow> (string \<rightharpoonup> rule_value)" where
  "add_rule m r =
     (case r_field r of
        Some f \<Rightarrow> m(f \<mapsto> Logic (case r_logic r of None \<Rightarrow> empty_logic | Some l \<Rightarrow> l))
      | None \<Rightarrow>
          (case r_date r of
             None \<Rightarrow> m
           | Some [] \<Rightarrow> m
           | Some (d # ds) \<Rightarrow> m(''date'' \<mapsto> Clause (date_clause d))))"

definition positive_rules_map :: "config \<Rightarrow> (string \<rightharpoonup> rule_value)" where
  "positive_rules_map c = foldl add_rule Map.empty (to_be c)"

text \<open>
  \<open>not rule_logic\<close>: a missing entry, an empty dictionary or an empty string. A logic
  dictionary is empty when it has none of its keys.
\<close>

fun falsy :: "rule_value option \<Rightarrow> bool" where
  "falsy None = True"
| "falsy (Some (Logic l)) = (l_and l = None \<and> l_or l = None \<and> l_alone l = None)"
| "falsy (Some (Clause s)) = (s = [])"

text \<open>
  The body of the loop over the field names of a group: the parts one field appends to
  \<open>all_group_parts\<close>. A string value under a field other than \<open>date\<close> reaches
  \<open>rule_logic.get\<close>, which a string does not have.
\<close>

definition field_parts :: "(string \<rightharpoonup> rule_value) \<Rightarrow> string \<Rightarrow> build_error + string list" where
  "field_parts m field_name =
     (if falsy (m field_name) then Inr []
      else case m field_name of
        None \<Rightarrow> Inr []
      | Some (Clause s) \<Rightarrow> if field_name = ''date'' then Inr [s] else Inl AttributeError
      | Some (Logic l) \<Rightarrow>
          Inr (map (field_clause field_name) (get_list (l_and l))
             @ map (field_clause field_name) (get_list (l_or l))
             @ map (field_clause field_name) (get_list (l_alone l))))"

text \<open>The loop over the field names of one group, \<open>acc\<close> being \<open>all_group_parts\<close>.\<close>

fun group_parts :: "(string \<rightharpoonup> rule_value) \<Rightarrow> string list \<Rightarrow> string list \<Rightarrow> build_error + string list" where
  "group_parts m [] acc = Inr acc"
| "group_parts m (f # fs) acc =
     (case field_parts m f of
        Inl e \<Rightarrow> Inl e
      | Inr ps \<Rightarrow> group_parts m fs (acc @ ps))"

text \<open>The loop over the groups, \<open>acc\<close> being \<open>grouped_queries\<close>.\<close>

fun grouped_queries :: "(string \<rightharpoonup> rule_value) \<Rightarrow> string list list \<Rightarrow> string list \<Rightarrow> build_error + string list" where
  "grouped_queries m [] acc = Inr acc"
| "grouped_queries m (g # gs) acc =
     (case group_parts m g [] of
        Inl e \<Rightarrow> Inl e
      | Inr all_group_parts \<Rightarrow>
          if all_group_parts = [] then grouped_queries m gs acc
          else if length all_group_parts > 1
            then grouped_queries m gs (acc @ [''('' @ join '' OR '' all_group_parts @ '')''])
            else grouped_queries m gs (acc @ [join '' OR '' all_group_parts]))"

text \<open>The loop over \<open>not_to_be\<close>, \<open>acc\<close> being \<open>not_queries\<close>.\<close>

fun not_queries :: "rule list \<Rightarrow> string list \<Rightarrow> string list" where
  "not_queries [] acc = acc"
| "not_queries (r # rs) acc =
     (case r_field r of
        None \<Rightarrow> not_queries rs acc
      | Some field_name \<Rightarrow>
          (let alone = get_list (l_alone (case r_logic r of None \<Rightarrow> empty_logic | Some l \<Rightarrow> l))
           in if field_name \<noteq> [] \<and> alone \<noteq> []
              then not_queries rs (acc @ map (not_clause field_name) alone)
              else not_queries rs acc))"

definition build :: "config \<Rightarrow> build_error + string" where
  "build c =
     (case grouped_queries (positive_rules_map c) (groups c) [] of
        Inl e \<Rightarrow> Inl e
      | Inr gq \<Rightarrow>
          Inr (join '' AND '' (filter (\<lambda>s. s \<noteq> []) (gq @ not_queries (not_to_be c) []))))"

subsection \<open>The builder as the specification words it\<close>

text \<open>
  The specification describes the result without the accumulators: every keyword of a
  field's \<open>and\<close>, \<open>or\<close> and \<open>alone\<close> lists becomes a quoted clause
  (\<open>keyword_clauses\<close>), a group collects the clauses of its fields
  (\<open>group_clauses\<close>), a group of several clauses is parenthesised and OR-joined
  (\<open>render_group\<close>), groups without clauses are left out (\<open>group_strings\<close>), and
  the result AND-joins the groups followed by the NOT clauses (\<open>build_spec\<close>).
  \<open>alone_rule\<close> is the rule \<open>{field: f, logic: {alone: kws}}\<close>, and
  \<open>example_ruleset\<close> a rule set with a three-keyword field, a date rule, a field
  without logic and a group that produces nothing.
\<close>

definition alone_rule :: "string \<Rightarrow> string list \<Rightarrow> rule" where
  "alone_rule f kws = \<lparr>r_field = Some f, r_logic = Some \<lparr>l_and = None, l_or = None, l_alone = Some kws\<rparr>, r_date = None\<rparr>"

definition keyword_clauses :: "string \<Rightarrow> logic \<Rightarrow> string list" where
  "keyword_clauses f l = map (field_clause f) (get_list (l_and l) @ get_list (l_or l) @ get_list (l_alone l))"

definition group_clauses :: "(string \<rightharpoonup> rule_value) \<Rightarrow> string list \<Rightarrow> string list" where
  "group_clauses m g =
     concat (map (\<lambda>f. case m f of None \<Rightarrow> [] | Some (Logic l) \<Rightarrow> keyword_clauses f l | Some (Clause s) \<Rightarrow> [s]) g)"

definition render_group :: "string list \<Rightarrow> string" where
  "render_group ps = (if length ps > 1 then ''('' @ join '' OR '' ps @ '')'' else join '' OR '' ps)"

definition not_clauses :: "rule list \<Rightarrow> string list" where
  "not_clauses rs =
     concat (map (\<lambda>r. case r_field r of None \<Rightarrow> [] | Some f \<Rightarrow>
        if f = [] then [] else map (not_clause f) (get_list (l_alone (case r_logic r of None \<Rightarrow> empty_logic | Some l \<Rightarrow> l)))) rs)"

definition group_strings :: "config \<Rightarrow> string list" where
  "group_strings c = map render_group (filter (\<lambda>ps. ps \<noteq> []) (map (group_clauses (positive_rules_map c)) (groups c)))"

definition build_spec :: "config \<Rightarrow> string" where
  "build_spec c = join '' AND '' (group_strings c @ not_clauses (not_to_be c))"

text \<open>The invariant of \<open>positive_rules_map\<close>: only \<open>date\<close> holds a clause string, and it ends in a bracket.\<close>

definition clause_inv :: "(string \<rightharpoonup> rule_value) \<Rightarrow> bool" where
  "clause_inv m = (\<forall>k s. m k = Some (Clause s) \<longrightarrow> k = ''date'' \<and> s \<noteq> [] \<and> last s = CHR '']'')"

definition example_ruleset :: config where
  "example_ruleset =
     \<lparr>to_be = [\<lparr>r_field = Some ''title'', r_logic = Some \<lparr>l_and = Some [''a''], l_or = Some [''b''], l_alone = Some [''c'']\<rparr>, r_date = None\<rparr>,
               \<lparr>r_field = None, r_logic = None, r_date = Some [\<lparr>dr_from = ''1900'', dr_to = ''1950''\<rparr>]\<rparr>,
               \<lparr>r_field = Some ''empty'', r_logic = None, r_date = None\<rparr>],
       groups = [[''title''], [''empty'', ''missing''], [''date'']],
       not_to_be = [alone_rule ''lang'' [''x'', ''y'']]\<rparr>"

section \<open>Pagination Engine (\<open>src/search.py\<close>)\<close>

record SearchOptions =
  query :: string
  so_fields :: "string list"
  sorts :: "string list"
  params :: "string \<rightharpoonup> pyval"
  request_kwargs :: "string \<rightharpoonup> pyval"
  fts :: bool
  dsl_fts :: bool

text \<open>Truth value of a JSON value read with \<open>.get\<close> (\<open>None\<close> when the key is absent).\<close>

fun py_truthy :: "pyval \<Rightarrow> bool" where
  "py_truthy (PyStr s) = (s \<noteq> [])"
| "py_truthy (PyInt i) = (i \<noteq> 0)"
| "py_truthy (PyBool b) = b"
| "py_truthy PyNone = False"

subsection \<open>\<open>AsyncSearch.__init__\<close>\<close>

text \<open>The query after the full-text marker has been prefixed.\<close>

definition init_fts :: "SearchOptions \<Rightarrow> bool" where
  "init_fts so = (dsl_fts so \<or> fts so)"

definition init_query :: "SearchOptions \<Rightarrow> string" where
  "init_query so = (if init_fts so \<and> \<not> dsl_fts so then ''!L '' @ query so else query so)"

text \<open>
  \<open>default_params\<close> as it stands when it is copied: the \<open>q\<close> entry, and \<open>count\<close>
  when the caller gave neither \<open>page\<close> nor \<open>rows\<close>, or \<open>output\<close> when the caller
  gave \<open>page\<close>.
\<close>

definition default_params :: "SearchOptions \<Rightarrow> (string \<rightharpoonup> pyval)" where
  "default_params so =
     (let d = [''q'' \<mapsto> PyStr (init_query so)]
      in if params so ''page'' = None
         then (if params so ''rows'' \<noteq> None then d else d(''count'' \<mapsto> PyStr ''10000''))
         else d(''output'' \<mapsto> PyStr ''json''))"

text \<open>
  The caller's \<open>params\<close> dictionary as the constructor has changed it in place before the
  update: \<open>page = 1\<close> added when \<open>rows\<close> came without \<open>page\<close>, and \<open>index\<close> renamed
  to \<open>scope\<close>.
\<close>

definition normalized_params :: "SearchOptions \<Rightarrow> (string \<rightharpoonup> pyval)" where
  "normalized_params so =
     (let p1 = (if params so ''page'' = None \<and> params so ''rows'' \<noteq> None
                then (params so)(''page'' \<mapsto> PyInt 1) else params so)
      in case p1 ''index'' of
           None \<Rightarrow> p1
         | Some v \<Rightarrow> (p1(''scope'' \<mapsto> v))(''index'' := None))"

definition AsyncSearch_init :: "SearchOptions \<Rightarrow> SearchOptions" where
  "AsyncSearch_init so =
     so\<lparr>query := init_query so,
        fts := init_fts so,
        params := default_params so ++ normalized_params so,
        request_kwargs :=
          (if request_kwargs so ''timeout'' = None
           then (request_kwargs so)(''timeout'' \<mapsto> PyInt 300) else request_kwargs so)\<rparr>"

subsection \<open>\<open>AsyncSearch._scrape\<close>\<close>

text \<open>
  What \<open>await self.client.post(...)\<close> followed by \<open>await response.json()\<close> gives the
  loop: an exception (a transport error, a status of 400 or more, a body that is not
  JSON), or the decoded object.
\<close>

datatype 'j reply = Raises | Json 'j

text \<open>
  The object of a scrape response: \<open>json_response.get("error")\<close> (\<open>None\<close> when
  absent), the \<open>total\<close> entry and the \<open>items\<close> array, both optional.
\<close>

datatype 'r scrape_json =
  Scrape_json (sj_error: pyval) (sj_total: "pyval option") (sj_items: "'r list option")

text \<open>What the generator yields: an item, or a whole response that reported an error.\<close>

datatype 'r scrape_yield = Item 'r | Error_response "'r scrape_json"

text \<open>
  The loop of \<open>_scrape\<close>. \<open>post n\<close> answers the request issued after \<open>n\<close> earlier ones
  (every request carries the same parameters); \<open>num_found\<close> is \<open>self._num_found\<close> and
  \<open>acc\<close> the records yielded so far. The result is the yielded records, the number of
  requests issued and \<open>self._num_found\<close>, or \<open>None\<close> when the loop is still running
  after \<open>fuel\<close> requests. A missing \<open>items\<close> key raises \<open>KeyError\<close>, which the last
  handler catches.
\<close>

fun scrape_loop ::
  "nat \<Rightarrow> (nat \<Rightarrow> 'r scrape_json reply) \<Rightarrow> nat \<Rightarrow> pyval \<Rightarrow> 'r scrape_yield list
     \<Rightarrow> ('r scrape_yield list \<times> nat \<times> pyval) option" where
  "scrape_loop 0 post n num_found acc = None"
| "scrape_loop (Suc fuel) post n num_found acc =
     (case post n of
        Raises \<Rightarrow> Some (acc, Suc n, num_found)
      | Json json_response \<Rightarrow>
          (let acc1 = (if py_truthy (sj_error json_response)
                       then acc @ [Error_response json_response] else acc);
               num_found1 = (case sj_total json_response of None \<Rightarrow> PyInt 0 | Some t \<Rightarrow> t)
           in case sj_items json_response of
                None \<Rightarrow> Some (acc1, Suc n, num_found1)
              | Some items \<Rightarrow> scrape_loop fuel post (Suc n) num_found1 (acc1 @ map Item items)))"

text \<open>The parameters \<open>_scrape\<close> sends: \<open>fields\<close> and \<open>sorts\<close> joined when not empty.\<close>

definition scrape_params :: "SearchOptions \<Rightarrow> (string \<rightharpoonup> pyval)" where
  "scrape_params so =
     (let p1 = (if so_fields so \<noteq> [] then (params so)(''fields'' \<mapsto> PyStr (join '','' (so_fields so))) else params so)
      in if sorts so \<noteq> [] then p1(''sorts'' \<mapsto> PyStr (join '','' (sorts so))) else p1)"

definition scrape ::
  "nat \<Rightarrow> ((string \<rightharpoonup> pyval) \<Rightarrow> nat \<Rightarrow> 'r scrape_json reply) \<Rightarrow> SearchOptions
     \<Rightarrow> ('r scrape_yield list \<times> nat \<times> pyval) option" where
  "scrape fuel client_post so = scrape_loop fuel (client_post (scrape_params so)) 0 PyNone []"

subsection \<open>\<open>AsyncSearch._full_text_search\<close>\<close>

text \<open>
  The object of a full-text response: \<open>json_response.get("_scroll_id")\<close> (\<open>None\<close>
  when absent) and \<open>json_response.get("hits", {}).get("hits")\<close>.
\<close>

datatype 'h fts_json = Fts_json (fj_scroll_id: pyval) (fj_hits: "'h list option")

text \<open>The payload \<open>data\<close> before the loop; \<open>str(False)\<close> is the string \<open>False\<close>.\<close>

definition fts_data :: "SearchOptions \<Rightarrow> (string \<rightharpoonup> pyval)" where
  "fts_data so =
     (let data = [''q'' \<mapsto> PyStr (query so), ''size'' \<mapsto> PyStr ''10000'',
                  ''from'' \<mapsto> PyStr ''0'', ''scroll'' \<mapsto> PyStr ''true''];
          data1 = (case params so ''scope'' of None \<Rightarrow> data | Some v \<Rightarrow> data(''scope'' \<mapsto> v))
      in case params so ''size'' of
           None \<Rightarrow> data1
         | Some v \<Rightarrow> data1(''scroll'' \<mapsto> PyStr ''False'', ''size'' \<mapsto> v))"

text \<open>
  The loop of \<open>_full_text_search\<close>. \<open>post n data\<close> answers the request with payload
  \<open>data\<close> issued after \<open>n\<close> earlier ones. Each handler logs the exception and falls
  out of the \<open>try\<close> statement, so the loop goes on with the same payload. \<open>is False\<close>
  holds of the boolean \<open>False\<close> alone. The result is the batches yielded and the number
  of requests issued, or \<open>None\<close> when the loop is still running after \<open>fuel\<close> requests.
\<close>

fun fts_loop ::
  "nat \<Rightarrow> (nat \<Rightarrow> (string \<rightharpoonup> pyval) \<Rightarrow> 'h fts_json reply) \<Rightarrow> (string \<rightharpoonup> pyval) \<Rightarrow> nat
     \<Rightarrow> 'h list list \<Rightarrow> ('h list list \<times> nat) option" where
  "fts_loop 0 post data n acc = None"
| "fts_loop (Suc fuel) post data n acc =
     (case post n data of
        Raises \<Rightarrow> fts_loop fuel post data (Suc n) acc
      | Json json_response \<Rightarrow>
          (case fj_hits json_response of
             None \<Rightarrow> Some (acc, Suc n)
           | Some [] \<Rightarrow> Some (acc, Suc n)
           | Some (h # hs) \<Rightarrow>
               if data ''scroll'' = Some (PyBool False) then Some (acc @ [h # hs], Suc n)
               else fts_loop fuel post (data(''scroll_id'' \<mapsto> fj_scroll_id json_response))
                      (Suc n) (acc @ [h # hs])))"

definition full_text_search ::
  "nat \<Rightarrow> (nat \<Rightarrow> (string \<rightharpoonup> pyval) \<Rightarrow> 'h fts_json reply) \<Rightarrow> SearchOptions
     \<Rightarrow> ('h list list \<times> nat) option" where
  "full_text_search fuel post so = fts_loop fuel post (fts_data so) 0 []"

text \<open>Example transports and options.\<close>

definition plain_options :: SearchOptions where
  "plain_options = \<lparr>query = ''cats'', so_fields = [], sorts = [], params = Map.empty,
     request_kwargs = Map.empty, fts = False, dsl_fts = False\<rparr>"

definition two_batches_then_empty :: "(string \<rightharpoonup> pyval) \<Rightarrow> nat \<Rightarrow> nat scrape_json reply" where
  "two_batches_then_empty p n =
     (if n = 0 then Json (Scrape_json PyNone (Some (PyInt 3)) (Some [1, 2]))
      else if n = 1 then Json (Scrape_json PyNone (Some (PyInt 3)) (Some [3]))
      else Json (Scrape_json PyNone (Some (PyInt 3)) (Some [])))"

definition empty_then_more :: "(string \<rightharpoonup> pyval) \<Rightarrow> nat \<Rightarrow> nat scrape_json reply" where
  "empty_then_more p n =
     (if n = 0 then Json (Scrape_json PyNone (Some (PyInt 3)) (Some [1, 2]))
      else if n = 1 then Json (Scrape_json PyNone (Some (PyInt 3)) (Some [3]))
      else if n = 2 then Json (Scrape_json PyNone (Some (PyInt 3)) (Some []))
      else if n = 3 then Json (Scrape_json PyNone (Some (PyInt 3)) (Some [4]))
      else Raises)"

definition fixed_size_options :: SearchOptions where
  "fixed_size_options = plain_options\<lparr>params := [''size'' \<mapsto> PyStr ''1''], fts := True\<rparr>"

definition hits_twice :: "nat \<Rightarrow> (string \<rightharpoonup> pyval) \<Rightarrow> nat fts_json reply" where
  "hits_twice n data =
     (if n = 0 then Json (Fts_json (PyStr ''s1'') (Some [1]))
      else if n = 1 then Json (Fts_json (PyStr ''s2'') (Some [2]))
      else Json (Fts_json PyNone None))"

definition no_hits :: "nat \<Rightarrow> (string \<rightharpoonup> pyval) \<Rightarrow> nat fts_json reply" where
  "no_hits n data = Json (Fts_json PyNone (Some []))"

definition raises_at_once :: "(string \<rightharpoonup> pyval) \<Rightarrow> nat \<Rightarrow> nat scrape_json reply" where
  "raises_at_once p n = Raises"

definition override_options :: SearchOptions where
  "override_options = plain_options\<lparr>params := [''q'' \<mapsto> PyStr ''dogs'', ''count'' \<mapsto> PyInt 5]\<rparr>"

section \<open>Transfer Engine (\<open>src/file.py\<close>, \<open>src/utils.py\<close>, \<open>src/client.py\<close>)\<close>

type_synonym path = string
type_synonym bytes = string

subsection \<open>\<open>AsyncBaseFile.__init__\<close>: the stored name\<close>

text \<open>\<open>name.strip("/")\<close>.\<close>

definition strip_slashes :: "string \<Rightarrow> string" where
  "strip_slashes s =
     rev (dropWhile (\<lambda>c. c = CHR ''/'') (rev (dropWhile (\<lambda>c. c = CHR ''/'') s)))"

text \<open>
  The loop over \<open>item_metadata.get("files", [])\<close>: the first entry whose \<open>name\<close> equals
  the normalised name, or the empty dictionary.
\<close>

fun find_file :: "(string \<rightharpoonup> pyval) list \<Rightarrow> string \<Rightarrow> (string \<rightharpoonup> pyval)" where
  "find_file [] name = Map.empty"
| "find_file (f # fs) name = (if f ''name'' = Some (PyStr name) then f else find_file fs name)"

text \<open>
  The attribute \<open>self.name\<close> when the constructor returns, for the \<open>files\<close> list of the
  item metadata, the \<open>name\<close> argument and the \<open>file_metadata\<close> argument. The
  constructor assigns \<open>self.name = name\<close> after stripping, and the loop
  \<open>setattr(self, key, value)\<close> over the file metadata then overwrites it when the
  metadata has a \<open>name\<close> key; the conversions at the end touch \<open>mtime\<close> and \<open>size\<close>
  only.
\<close>

definition stored_name :: "(string \<rightharpoonup> pyval) list \<Rightarrow> string \<Rightarrow> (string \<rightharpoonup> pyval) option \<Rightarrow> pyval" where
  "stored_name item_files name file_metadata =
     (let fm0 = (case file_metadata of None \<Rightarrow> Map.empty | Some m \<Rightarrow> m);
          name1 = (if name \<noteq> [] then strip_slashes name else name);
          fm = (if fm0 = Map.empty then find_file item_files name1 else fm0)
      in case fm ''name'' of None \<Rightarrow> PyStr name1 | Some v \<Rightarrow> v)"

subsection \<open>Files, requests and the world\<close>

datatype error =
    OSError path
  | FileNotFoundError path
  | FileExistsError path
  | NotADirectoryError path
  | IsADirectoryError path
  | ValueError
  | ClientError
  | ClientResponseError nat
  | ClientPayloadError

text \<open>
  The \<open>Last-Modified\<close> header of a response: absent, a date that
  \<open>parsedate_to_datetime\<close> turns into a time stamp, or a value it raises on.
\<close>

datatype last_modified_header = No_header | Parsed real | Malformed

text \<open>
  What the server answers to a request: no answer (a network error), or a status, the
  \<open>Last-Modified\<close> header, the bytes of the body that arrive, and whether the stream
  breaks after them.
\<close>

datatype http_reply =
    Network_error
  | Http_response (status: nat) (last_modified: last_modified_header) (body: bytes) (breaks: bool)

text \<open>A request as \<open>download\<close> issues it; timeout, authentication and parameters are
  passed on from the options unchanged and left out.\<close>

record request =
  req_url :: string
  req_headers :: "(string \<times> string) list"

text \<open>
  The world \<open>download\<close> acts on: the regular files with their contents and modification
  times, the requests issued and the sleeps taken so far, in order, and what has been
  written to standard output and to the caller's file object.
\<close>

datatype event = Request request | Sleep int

record world =
  files :: "path \<rightharpoonup> bytes"
  mtimes :: "path \<rightharpoonup> real"
  events :: "event list"
  stdout_buffer :: bytes
  fileobj_buffer :: bytes

text \<open>
  The regular file a path names, if any. Paths are taken as written. The empty path and
  a path ending in a slash name no regular file. Directories are not tracked: a path
  that holds no regular file, and none of whose ancestors does, can be made a directory,
  and the destination of a transfer is taken not to be an existing directory.
\<close>

definition regular_file :: "world \<Rightarrow> path \<Rightarrow> bytes option" where
  "regular_file w p = (if p = [] \<or> last p = CHR ''/'' then None else files w p)"

text \<open>The requests among the events, in order.\<close>

fun requests_of :: "event list \<Rightarrow> request list" where
  "requests_of [] = []"
| "requests_of (Request r # es) = r # requests_of es"
| "requests_of (Sleep s # es) = requests_of es"

definition requests :: "world \<Rightarrow> request list" where
  "requests w = requests_of (events w)"

record AsyncFile =
  file_identifier :: string
  file_name :: string
  file_size :: int
  file_md5 :: "string option"
  file_mtime :: real
  file_url :: string

record DownloadOptions =
  destdir :: "path option"
  file_path :: string
  ignore_existing :: bool
  ignore_errors :: bool
  stdout :: bool
  checksum :: bool
  checksum_archive :: bool
  retries :: int
  no_change_timestamp :: bool
  return_responses :: bool
  fileobj :: bool
  retries_sleep :: int

datatype retval = Ret_None | Ret_True | Ret_False | Ret_Response http_reply

subsection \<open>Library functions\<close>

text \<open>Successive reads or chunks of at most \<open>n\<close> bytes, up to the end.\<close>

function chunked :: "nat \<Rightarrow> 'a list \<Rightarrow> 'a list list" where
  "chunked n xs = (if n = 0 \<or> xs = [] then [] else take n xs # chunked n (drop n xs))"
  by pat_completeness auto
termination
  by (relation "measure (\<lambda>(n, xs). length xs)") auto

declare chunked.simps [simp del]

text \<open>
  \<open>f.readlines()\<close> on a file opened in text mode: the lines of the text, each with its
  line end. With universal newlines a line ends at a line feed, at a carriage return
  followed by a line feed, or at a lone carriage return, and each of these is read as a
  line feed.
\<close>

fun readlines :: "string \<Rightarrow> string list" where
  "readlines [] = []"
| "readlines (c # cs) =
     (if c = CHR 0x0A then [CHR 0x0A] # readlines cs
      else if c = CHR 0x0D then
        (case cs of
           [] \<Rightarrow> [[CHR 0x0A]]
         | d # ds \<Rightarrow> if d = CHR 0x0A then [CHR 0x0A] # readlines ds else [CHR 0x0A] # readlines cs)
      else (case readlines cs of [] \<Rightarrow> [[c]] | l # ls \<Rightarrow> (c # l) # ls))"

text \<open>\<open>str(n)\<close> for a size.\<close>

function str_nat :: "nat \<Rightarrow> string" where
  "str_nat n = (if n < 10 then [char_of (48 + n)] else str_nat (n div 10) @ [char_of (48 + n mod 10)])"
  by pat_completeness auto
termination
  by (relation "measure id") auto

declare str_nat.simps [simp del]

text \<open>\<open>os.path.dirname\<close> and \<open>os.path.join\<close> of two parts (POSIX).\<close>

definition dirname :: "path \<Rightarrow> path" where
  "dirname p =
     (let head = rev (dropWhile (\<lambda>c. c \<noteq> CHR ''/'') (rev p))
      in if head \<noteq> [] \<and> filter (\<lambda>c. c \<noteq> CHR ''/'') head \<noteq> []
         then rev (dropWhile (\<lambda>c. c = CHR ''/'') (rev head)) else head)"

definition path_join :: "path \<Rightarrow> path \<Rightarrow> path" where
  "path_join a b =
     (if take 1 b = ''/'' then b
      else if a = [] \<or> last a = CHR ''/'' then a @ b
      else a @ ''/'' @ b)"

text \<open>The proper ancestors of a path: what stands before each slash but a leading one.\<close>

definition ancestors :: "path \<Rightarrow> path list" where
  "ancestors d = map (\<lambda>i. take i d) (filter (\<lambda>i. d ! i = CHR ''/'') [1..<length d])"

text \<open>
  \<open>os.makedirs(d, exist_ok=True)\<close>: it raises \<open>NotADirectoryError\<close> when an ancestor of
  \<open>d\<close> is a regular file and \<open>FileExistsError\<close> when \<open>d\<close> itself is one; otherwise
  the directories exist afterwards.
\<close>

definition makedirs :: "world \<Rightarrow> path \<Rightarrow> error option" where
  "makedirs w d =
     (if filter (\<lambda>p. regular_file w p \<noteq> None) (ancestors d) \<noteq> [] then Some (NotADirectoryError d)
      else if regular_file w d \<noteq> None then Some (FileExistsError d)
      else None)"

text \<open>
  Opening the destination for writing (\<open>wb\<close> or \<open>ab\<close>) after the parent directory has
  been made: the empty path raises \<open>FileNotFoundError\<close>, a path ending in a slash
  \<open>IsADirectoryError\<close>.
\<close>

definition open_for_writing :: "path \<Rightarrow> error option" where
  "open_for_writing p =
     (if p = [] then Some (FileNotFoundError p)
      else if last p = CHR ''/'' then Some (IsADirectoryError p)
      else None)"

subsection \<open>\<open>utils.get_md5\<close> and \<open>InternetArchiveClient.get\<close>\<close>

text \<open>
  \<open>get_md5\<close> feeds the file to the hash in reads of 8192 bytes; \<open>md5_hexdigest\<close> is
  the digest \<open>hashlib\<close> gives for the bytes fed.
\<close>

definition get_md5 :: "(bytes \<Rightarrow> string) \<Rightarrow> bytes \<Rightarrow> string" where
  "get_md5 md5_hexdigest content = md5_hexdigest (foldl (@) [] (chunked 8192 content))"

text \<open>
  \<open>get\<close> of the client raises on a network error and, through \<open>raise_for_status\<close>, on
  a status of 400 or more. \<open>transport n req\<close> is the server's answer to the request
  \<open>req\<close> issued after \<open>n\<close> earlier ones.
\<close>

definition client_get :: "(nat \<Rightarrow> request \<Rightarrow> http_reply) \<Rightarrow> nat \<Rightarrow> request \<Rightarrow> error + http_reply" where
  "client_get transport n req =
     (case transport n req of
        Network_error \<Rightarrow> Inl ClientError
      | Http_response st lm b br \<Rightarrow>
          if st \<ge> 400 then Inl (ClientResponseError st) else Inr (Http_response st lm b br))"

subsection \<open>\<open>AsyncFile.download\<close>\<close>

text \<open>The destination path; a \<open>destdir\<close> that is a regular file raises \<open>OSError\<close>.\<close>

definition resolve_path :: "AsyncFile \<Rightarrow> DownloadOptions \<Rightarrow> world \<Rightarrow> error + path" where
  "resolve_path self opts w =
     (let fp = (if file_path opts \<noteq> [] then file_path opts else file_name self)
      in case destdir opts of
           None \<Rightarrow> Inr fp
         | Some d \<Rightarrow> if regular_file w d \<noteq> None then Inl (OSError d) else Inr (path_join d fp))"

definition checksum_archive_filename :: path where
  "checksum_archive_filename = ''_checksum_archive.txt''"

text \<open>
  The ledger part of the skip checks. \<open>aiofiles.os.path.exists\<close> is called without
  \<open>await\<close>, so the test sees a coroutine object. Opening a missing file for reading
  raises. The result is whether the path is one of the lines read.
\<close>

definition ledger_check :: "DownloadOptions \<Rightarrow> path \<Rightarrow> world \<Rightarrow> (error + bool) \<times> world" where
  "ledger_check opts fp w =
     (if checksum_archive opts then
        (let w1 = (if \<not> truthy (Coroutine (regular_file w checksum_archive_filename \<noteq> None))
                   then w\<lparr>files := (files w)(checksum_archive_filename \<mapsto> [])\<rparr> else w)
         in case regular_file w1 checksum_archive_filename of
              None \<Rightarrow> (Inl (FileNotFoundError checksum_archive_filename), w1)
            | Some checksum_archive_data \<Rightarrow> (Inr (fp \<in> set (readlines checksum_archive_data)), w1))
      else (Inr False, w))"

text \<open>
  The skip checks before the retry loop; \<open>Inr True\<close> is \<open>return None\<close> (skipped),
  \<open>Inr False\<close> goes on to the loop. The outer \<open>exists\<close> is not awaited either, and
  neither is \<open>utils.get_md5\<close>, so \<open>md5_sum\<close> is a coroutine object. On a match the
  path is appended to \<open>open(download_options.checksum_archive, "a")\<close>; the option is the
  boolean flag, and \<open>open(True, "a")\<close> opens file descriptor 1, standard output.
\<close>

definition skip_checks ::
  "(bytes \<Rightarrow> string) \<Rightarrow> AsyncFile \<Rightarrow> DownloadOptions \<Rightarrow> path \<Rightarrow> world \<Rightarrow> (error + bool) \<times> world" where
  "skip_checks md5_hexdigest self opts fp w =
     (if \<not> return_responses opts \<and> truthy (Coroutine (regular_file w fp \<noteq> None)) then
        (case ledger_check opts fp w of
           (Inl e, w1) \<Rightarrow> (Inl e, w1)
         | (Inr True, w1) \<Rightarrow> (Inr True, w1)
         | (Inr False, w1) \<Rightarrow>
             if ignore_existing opts then (Inr True, w1)
             else if checksum opts \<or> checksum_archive opts then
               (case regular_file w1 fp of
                  None \<Rightarrow> (Inl (FileNotFoundError fp), w1)
                | Some content \<Rightarrow>
                    (let md5_sum = Coroutine (get_md5 md5_hexdigest content)
                     in if py_eq md5_sum (file_md5 self) then
                          (Inr True,
                           if checksum_archive opts
                           then w1\<lparr>stdout_buffer := stdout_buffer w1 @ fp @ [CHR 0x0A]\<rparr> else w1)
                        else (Inr False, w1)))
             else (Inr False, w1))
      else (Inr False, w))"

text \<open>
  The headers of an attempt: \<open>headers\<close> is the dictionary as the previous attempt left
  it (empty at first); it is replaced when the file exists with a size other than the
  remote one and no checksum mode is on.
\<close>

definition resume_headers ::
  "AsyncFile \<Rightarrow> DownloadOptions \<Rightarrow> path \<Rightarrow> (string \<times> string) list \<Rightarrow> world \<Rightarrow> (string \<times> string) list" where
  "resume_headers self opts fp headers w =
     (if \<not> return_responses opts then
        (case regular_file w fp of
           None \<Rightarrow> headers
         | Some content \<Rightarrow>
             if int (length content) \<noteq> file_size self \<and> \<not> (checksum opts \<or> checksum_archive opts)
             then [(''Range'', ''bytes='' @ str_nat (length content) @ ''-'')]
             else headers)
      else headers)"

text \<open>
  Writing the body of a response in chunks of 8192 bytes, to standard output, to the
  caller's file object, or to the file, which is opened first (appending when a
  \<open>Range\<close> header was sent, truncating otherwise); then the modification time is set
  unless switched off. A stream that breaks raises after the bytes that arrived were
  written.
\<close>

definition write_body ::
  "AsyncFile \<Rightarrow> DownloadOptions \<Rightarrow> path \<Rightarrow> (string \<times> string) list \<Rightarrow> http_reply \<Rightarrow> real \<Rightarrow> world
     \<Rightarrow> (error + retval) \<times> world" where
  "write_body self opts fp headers response last_mod_mtime w =
     (let chunks = chunked 8192 (body response);
          done = (if breaks response then Inl ClientPayloadError else Inr Ret_True)
      in if stdout opts then (done, w\<lparr>stdout_buffer := foldl (@) (stdout_buffer w) chunks\<rparr>)
         else if fileobj opts then (done, w\<lparr>fileobj_buffer := foldl (@) (fileobj_buffer w) chunks\<rparr>)
         else
           (case open_for_writing fp of
              Some e \<Rightarrow> (Inl e, w)
            | None \<Rightarrow>
                (let start = (if map_of headers ''Range'' \<noteq> None
                              then (case regular_file w fp of None \<Rightarrow> [] | Some old \<Rightarrow> old) else []);
                     w1 = w\<lparr>files := (files w)(fp \<mapsto> foldl (@) start chunks)\<rparr>
                 in if breaks response then (Inl ClientPayloadError, w1)
                    else (Inr Ret_True,
                          if no_change_timestamp opts then w1
                          else w1\<lparr>mtimes := (mtimes w1)(fp \<mapsto> last_mod_mtime)\<rparr>))))"

text \<open>
  The rest of an attempt once the header is parsed: \<open>raise_for_status\<close> once more,
  then the response is returned in capture mode and its body written otherwise.
\<close>

definition attempt_body ::
  "AsyncFile \<Rightarrow> DownloadOptions \<Rightarrow> path \<Rightarrow> (string \<times> string) list \<Rightarrow> http_reply \<Rightarrow> real \<Rightarrow> world
     \<Rightarrow> (error + retval) \<times> (string \<times> string) list \<times> world" where
  "attempt_body self opts fp headers response last_mod_mtime w =
     (if status response \<ge> 400 then (Inl (ClientResponseError (status response)), headers, w)
      else if return_responses opts then (Inr (Ret_Response response), headers, w)
      else (case write_body self opts fp headers response last_mod_mtime w of
              (r, w1) \<Rightarrow> (r, headers, w1)))"

text \<open>
  The body of the \<open>try\<close> statement: one attempt. The parent directory is made, the
  headers are set, the request is issued, the \<open>Last-Modified\<close> header is parsed (the
  file's own time stamp standing in for an absent one), the status is checked once more,
  and the response is returned or its body written. The result carries the headers for
  the next attempt.
\<close>

definition attempt ::
  "(nat \<Rightarrow> request \<Rightarrow> http_reply) \<Rightarrow> AsyncFile \<Rightarrow> DownloadOptions \<Rightarrow> path \<Rightarrow> (string \<times> string) list \<Rightarrow> world
     \<Rightarrow> (error + retval) \<times> (string \<times> string) list \<times> world" where
  "attempt transport self opts fp headers w =
     (let parent_dir = dirname fp
      in case (if parent_dir \<noteq> [] \<and> \<not> return_responses opts then makedirs w parent_dir else None) of
           Some e \<Rightarrow> (Inl e, headers, w)
         | None \<Rightarrow>
           (let headers1 = resume_headers self opts fp headers w;
                req = \<lparr>req_url = file_url self, req_headers = headers1\<rparr>;
                w1 = w\<lparr>events := events w @ [Request req]\<rparr>
            in case client_get transport (length (requests w)) req of
                 Inl e \<Rightarrow> (Inl e, headers1, w1)
               | Inr response \<Rightarrow>
                   (case last_modified response of
                      Malformed \<Rightarrow> (Inl ValueError, headers1, w1)
                    | No_header \<Rightarrow> attempt_body self opts fp headers1 response (file_mtime self) w1
                    | Parsed t \<Rightarrow> attempt_body self opts fp headers1 response t w1)))"

text \<open>
  The retry loop: an attempt that raises is retried after a sleep while
  \<open>download_options.retries\<close> is positive, the option being decremented in place;
  otherwise the error is returned as \<open>False\<close> or raised.
\<close>

function retry_loop ::
  "(nat \<Rightarrow> request \<Rightarrow> http_reply) \<Rightarrow> AsyncFile \<Rightarrow> path \<Rightarrow> (string \<times> string) list \<Rightarrow> DownloadOptions \<Rightarrow> world
     \<Rightarrow> (error + retval) \<times> DownloadOptions \<times> world" where
  "retry_loop transport self fp headers opts w =
     (case attempt transport self opts fp headers w of
        (Inr r, headers1, w1) \<Rightarrow> (Inr r, opts, w1)
      | (Inl exc, headers1, w1) \<Rightarrow>
          if retries opts > 0
          then retry_loop transport self fp headers1 (opts\<lparr>retries := retries opts - 1\<rparr>)
                 (w1\<lparr>events := events w1 @ [Sleep (retries_sleep opts)]\<rparr>)
          else if ignore_errors opts then (Inr Ret_False, opts, w1)
          else (Inl exc, opts, w1))"
  by pat_completeness auto
termination
  by (relation "measure (\<lambda>(transport, self, fp, headers, opts, w). nat (retries opts))") auto

declare retry_loop.simps [simp del]

definition download ::
  "(bytes \<Rightarrow> string) \<Rightarrow> (nat \<Rightarrow> request \<Rightarrow> http_reply) \<Rightarrow> AsyncFile \<Rightarrow> DownloadOptions \<Rightarrow> world
     \<Rightarrow> (error + retval) \<times> DownloadOptions \<times> world" where
  "download md5_hexdigest transport self opts w =
     (case resolve_path self opts w of
        Inl e \<Rightarrow> (Inl e, opts, w)
      | Inr fp \<Rightarrow>
          (case skip_checks md5_hexdigest self opts fp w of
             (Inl e, w1) \<Rightarrow> (Inl e, opts, w1)
           | (Inr True, w1) \<Rightarrow> (Inr Ret_None, opts, w1)
           | (Inr False, w1) \<Rightarrow> retry_loop transport self fp [] opts w1))"

subsection \<open>Notions used to state the properties of \<open>download\<close>\<close>

text \<open>
  Whether the parent directory of the destination can be made when an attempt starts
  (nothing is made for an empty parent, or in capture mode).
\<close>

definition parent_ready :: "DownloadOptions \<Rightarrow> path \<Rightarrow> world \<Rightarrow> bool" where
  "parent_ready opts fp w =
     ((if dirname fp \<noteq> [] \<and> \<not> return_responses opts then makedirs w (dirname fp) else None) = None)"

text \<open>
  A reply on which the attempt raises after its request was issued: a network error, a
  status of 400 or more, a \<open>Last-Modified\<close> header that does not parse, or, when the
  body is consumed (no response capture), a stream that breaks.
\<close>

definition failing_reply :: "DownloadOptions \<Rightarrow> http_reply \<Rightarrow> bool" where
  "failing_reply opts r =
     (case r of
        Network_error \<Rightarrow> True
      | Http_response st lm b br \<Rightarrow> 400 \<le> st \<or> lm = Malformed \<or> (br \<and> \<not> return_responses opts))"




text \<open>Example files, options, worlds and servers.\<close>

definition example_hexdigest :: "bytes \<Rightarrow> string" where
  "example_hexdigest content = ''900150983cd24fb0d6963f7d28e17f72''"

definition example_file :: AsyncFile where
  "example_file = \<lparr>file_identifier = ''item'', file_name = ''a.txt'', file_size = 10,
     file_md5 = Some ''900150983cd24fb0d6963f7d28e17f72'', file_mtime = 0,
     file_url = ''https://archive.org/item/a.txt''\<rparr>"

definition default_options :: DownloadOptions where
  "default_options = \<lparr>destdir = None, file_path = [], ignore_existing = False,
     ignore_errors = False, stdout = False, checksum = False, checksum_archive = False,
     retries = 2, no_change_timestamp = False, return_responses = False, fileobj = False,
     retries_sleep = 3\<rparr>"

definition empty_world :: world where
  "empty_world = \<lparr>files = Map.empty, mtimes = Map.empty, events = [], stdout_buffer = [],
     fileobj_buffer = []\<rparr>"

definition partial_world :: world where
  "partial_world = empty_world\<lparr>files := [''a.txt'' \<mapsto> ''abc'']\<rparr>"

definition no_network :: "nat \<Rightarrow> request \<Rightarrow> http_reply" where
  "no_network n req = Network_error"




definition abc_file :: AsyncFile where
  "abc_file = example_file\<lparr>file_size := 3, file_md5 := Some (get_md5 example_hexdigest ''abc'')\<rparr>"

definition abc_server :: "nat \<Rightarrow> request \<Rightarrow> http_reply" where
  "abc_server n req = Http_response 200 No_header ''abc'' False"

definition blocked_world :: world where
  "blocked_world = empty_world\<lparr>files := [''p'' \<mapsto> ''x'']\<rparr>"

definition cr_ledger_world :: world where
  "cr_ledger_world = empty_world\<lparr>files := [''a.txt'' \<mapsto> ''abc'',
     ''_checksum_archive.txt'' \<mapsto> ''b.txt'' @ [CHR 0x0D] @ ''a.txt'']\<rparr>"

definition ledger_world :: world where
  "ledger_world = empty_world\<lparr>files := [''a.txt'' \<mapsto> ''abc'',
     ''_checksum_archive.txt'' \<mapsto> ''a.txt'' @ [CHR 0x0A]]\<rparr>"


section \<open>Verified properties\<close>

subsection \<open>Query Builder\<close>

lemma date_clause_nonempty: "date_clause d \<noteq> []" "last (date_clause d) = CHR '']''"
  by (simp_all add: date_clause_def)

lemma add_rule_inv: "clause_inv m \<Longrightarrow> clause_inv (add_rule m r)"
  by (auto simp: clause_inv_def add_rule_def date_clause_nonempty split: option.splits list.splits)

lemma foldl_add_rule_inv: "clause_inv m \<Longrightarrow> clause_inv (foldl add_rule m rs)"
  by (induction rs arbitrary: m) (simp_all add: add_rule_inv)

lemma positive_rules_map_inv: "clause_inv (positive_rules_map c)"
  unfolding positive_rules_map_def by (rule foldl_add_rule_inv) (simp add: clause_inv_def)

lemma field_parts_inv:
  "clause_inv m \<Longrightarrow> field_parts m f =
     Inr (case m f of None \<Rightarrow> [] | Some (Logic l) \<Rightarrow> keyword_clauses f l | Some (Clause s) \<Rightarrow> [s])"
  by (auto simp: field_parts_def clause_inv_def keyword_clauses_def get_list_def split: option.splits rule_value.splits)

lemma group_parts_inv:
  "clause_inv m \<Longrightarrow> group_parts m g acc = Inr (acc @ group_clauses m g)"
  by (induction g arbitrary: acc) (simp_all add: field_parts_inv group_clauses_def)

lemma grouped_queries_inv:
  "clause_inv m \<Longrightarrow> grouped_queries m gs acc =
     Inr (acc @ map render_group (filter (\<lambda>ps. ps \<noteq> []) (map (group_clauses m) gs)))"
  by (induction gs arbitrary: acc) (simp_all add: group_parts_inv render_group_def)

lemma not_queries_eq: "not_queries rs acc = acc @ not_clauses rs"
  by (induction rs arbitrary: acc) (simp_all add: not_clauses_def Let_def split: option.splits)

lemma field_clause_last: "field_clause f kw \<noteq> []" "last (field_clause f kw) = CHR 0x22"
  by (simp_all add: field_clause_def)

lemma not_clause_nonempty: "not_clause f kw \<noteq> []" "[] \<noteq> not_clause f kw"
  by (simp_all add: not_clause_def)

lemma join_nonempty: "xs \<noteq> [] \<Longrightarrow> \<forall>x\<in>set xs. x \<noteq> [] \<Longrightarrow> join sep xs \<noteq> []"
  by (induction sep xs rule: join.induct) simp_all

lemma keyword_clauses_parts:
  "p \<in> set (keyword_clauses f l) \<Longrightarrow> p \<noteq> [] \<and> last p \<noteq> CHR '')''"
  by (auto simp: keyword_clauses_def field_clause_last)

lemma field_value_parts:
  assumes "clause_inv m"
    and "p \<in> set (case m f of None \<Rightarrow> [] | Some (Logic l) \<Rightarrow> keyword_clauses f l | Some (Clause s) \<Rightarrow> [s])"
  shows "p \<noteq> [] \<and> last p \<noteq> CHR '')''"
proof (cases "m f")
  case None
  with assms(2) show ?thesis by simp
next
  case (Some v)
  show ?thesis
  proof (cases v)
    case (Logic l)
    with Some assms(2) show ?thesis by (simp add: keyword_clauses_parts)
  next
    case (Clause s)
    with Some assms(1) have "s \<noteq> [] \<and> last s = CHR '']''" by (simp add: clause_inv_def)
    with Some Clause assms(2) show ?thesis by simp
  qed
qed

lemma group_clauses_parts:
  "clause_inv m \<Longrightarrow> p \<in> set (group_clauses m g) \<Longrightarrow> p \<noteq> [] \<and> last p \<noteq> CHR '')''"
  unfolding group_clauses_def using field_value_parts by fastforce

lemma render_group_nonempty:
  "ps \<noteq> [] \<Longrightarrow> \<forall>p\<in>set ps. p \<noteq> [] \<Longrightarrow> render_group ps \<noteq> []"
  by (simp add: render_group_def join_nonempty)

lemma group_strings_nonempty: "s \<in> set (group_strings c) \<Longrightarrow> s \<noteq> []"
proof -
  assume "s \<in> set (group_strings c)"
  then obtain g where s: "s = render_group (group_clauses (positive_rules_map c) g)"
    and ne: "group_clauses (positive_rules_map c) g \<noteq> []"
    by (auto simp: group_strings_def)
  have "\<forall>p\<in>set (group_clauses (positive_rules_map c) g). p \<noteq> []"
    using group_clauses_parts[OF positive_rules_map_inv] by blast
  with ne show ?thesis unfolding s by (rule render_group_nonempty)
qed

lemma not_clauses_nonempty: "s \<in> set (not_clauses rs) \<Longrightarrow> s \<noteq> []"
  by (auto simp: not_clauses_def not_clause_nonempty split: option.splits if_splits)


lemma build_eq_spec: "build c = Inr (build_spec c)"
proof -
  have "filter (\<lambda>s. s \<noteq> []) (group_strings c @ not_clauses (not_to_be c)) = group_strings c @ not_clauses (not_to_be c)"
    by (rule filter_True) (auto dest: group_strings_nonempty not_clauses_nonempty)
  then show ?thesis
    by (simp add: build_def grouped_queries_inv[OF positive_rules_map_inv] not_queries_eq build_spec_def group_strings_def)
qed

lemma join_snoc: "xs \<noteq> [] \<Longrightarrow> join sep (xs @ [y]) = join sep xs @ sep @ y"
  by (induction sep xs rule: join.induct) simp_all

lemma not_clauses_snoc:
  "lang \<noteq> [] \<Longrightarrow> not_clauses (rs @ [alone_rule lang [x]]) = not_clauses rs @ [not_clause lang x]"
  by (simp add: not_clauses_def alone_rule_def get_list_def)

lemma group_strings_not_to_be: "group_strings (c\<lparr>not_to_be := rs\<rparr>) = group_strings c"
  by (simp add: group_strings_def positive_rules_map_def)

lemma build_append_not:
  assumes "build c = Inr s" "s \<noteq> []" "lang \<noteq> []"
  shows \<open>build (c\<lparr>not_to_be := not_to_be c @ [alone_rule lang [x]]\<rparr>) = Inr (s @ '' AND NOT '' @ lang @ '':"'' @ x @ ''"'')\<close>
proof -
  let ?xs = "group_strings c @ not_clauses (not_to_be c)"
  from assms(1) have s: "s = join '' AND '' ?xs" by (simp add: build_eq_spec build_spec_def)
  with assms(2) have ne: "?xs \<noteq> []" by auto
  have "build_spec (c\<lparr>not_to_be := not_to_be c @ [alone_rule lang [x]]\<rparr>)
      = join '' AND '' (?xs @ [not_clause lang x])"
    by (simp add: build_spec_def group_strings_not_to_be not_clauses_snoc[OF assms(3)])
  also have "\<dots> = s @ '' AND '' @ not_clause lang x"
    unfolding s by (rule join_snoc[OF ne])
  finally show ?thesis by (simp add: build_eq_spec not_clause_def)
qed

lemma build_one_field:
  \<open>build \<lparr>to_be = [alone_rule ''creator'' [''Doe'']], groups = [[''creator'']], not_to_be = []\<rparr> = Inr ''creator:"Doe"''\<close>
  by (simp add: build_def positive_rules_map_def add_rule_def alone_rule_def field_parts_def get_list_def field_clause_def)

lemma build_two_fields:
  assumes "f1 \<noteq> f2"
  shows \<open>build \<lparr>to_be = [alone_rule f1 [a], alone_rule f2 [b]], groups = [[f1, f2]], not_to_be = []\<rparr>
     = Inr (''('' @ f1 @ '':"'' @ a @ ''" OR '' @ f2 @ '':"'' @ b @ ''")'')\<close>
  using assms
  by (simp add: build_def positive_rules_map_def add_rule_def alone_rule_def field_parts_def get_list_def field_clause_def)

text \<open>
  Claim C5. The Query Builder is a pure function of the rule set (\<open>build\<close> reads only
  its configuration and changes nothing, so building twice gives the same string). The
  rule set with the group \<open>["creator"]\<close> and the rule
  \<open>{field: creator, logic: {alone: ["Doe"]}}\<close> yields \<open>creator:"Doe"\<close>; a group of
  two different fields with one value each yields \<open>(field1:"a" OR field2:"b")\<close>; and
  appending a \<open>not_to_be\<close> rule with \<open>alone: [x]\<close> on a field \<open>lang\<close> to a
  rule set with a non-empty result yields the same string followed by
  \<open>AND NOT lang:"x"\<close>.
\<close>

theorem query_builder_examples:
  \<open>build c = build c
   \<and> build \<lparr>to_be = [alone_rule ''creator'' [''Doe'']], groups = [[''creator'']], not_to_be = []\<rparr> = Inr ''creator:"Doe"''
   \<and> (f1 \<noteq> f2 \<longrightarrow>
        build \<lparr>to_be = [alone_rule f1 [a], alone_rule f2 [b]], groups = [[f1, f2]], not_to_be = []\<rparr>
          = Inr (''('' @ f1 @ '':"'' @ a @ ''" OR '' @ f2 @ '':"'' @ b @ ''")''))
   \<and> (build c = Inr s \<and> s \<noteq> [] \<and> lang \<noteq> [] \<longrightarrow>
        build (c\<lparr>not_to_be := not_to_be c @ [alone_rule lang [x]]\<rparr>)
          = Inr (s @ '' AND NOT '' @ lang @ '':"'' @ x @ ''"''))\<close>
  using build_one_field build_two_fields build_append_not by blast

theorem query_builder_examples_witness:
  \<open>''field1'' \<noteq> ''field2''
   \<and> build \<lparr>to_be = [alone_rule ''field1'' [''a''], alone_rule ''field2'' [''b'']], groups = [[''field1'', ''field2'']], not_to_be = []\<rparr>
       = Inr ''(field1:"a" OR field2:"b")''
   \<and> ''(field1:"a" OR field2:"b")'' \<noteq> [] \<and> ''lang'' \<noteq> []
   \<and> build \<lparr>to_be = [alone_rule ''field1'' [''a''], alone_rule ''field2'' [''b'']], groups = [[''field1'', ''field2'']],
        not_to_be = [alone_rule ''lang'' [''x'']]\<rparr>
       = Inr ''(field1:"a" OR field2:"b") AND NOT lang:"x"''\<close>
  using query_builder_examples[of
      "\<lparr>to_be = [alone_rule ''field1'' [''a''], alone_rule ''field2'' [''b'']], groups = [[''field1'', ''field2'']], not_to_be = []\<rparr>"
      "''field1''" "''field2''" "''a''" "''b''" \<open>''(field1:"a" OR field2:"b")''\<close> "''lang''" "''x''"]
  by simp

text \<open>
  Claim C6. For every rule set, \<open>build\<close> returns the string the specification
  describes (\<open>build_spec\<close>): the \<open>and\<close>, \<open>or\<close> and \<open>alone\<close> keywords of a
  field are flattened into one OR-joined group, a group of several clauses is
  parenthesised, a group of one clause is not, a group without clauses is left out, and
  the result is the AND-join of the group strings followed by the NOT clauses. No group
  string is a pair of empty parentheses, and the empty rule set yields the empty string.
\<close>

theorem query_builder_flattens_and_joins:
  "build c = Inr (build_spec c)
   \<and> ''()'' \<notin> set (group_strings c)
   \<and> build \<lparr>to_be = [], groups = [], not_to_be = []\<rparr> = Inr ''''"
proof -
  have "s \<noteq> ''()''" if "s \<in> set (group_strings c)" for s
  proof -
    from that obtain g where s: "s = render_group (group_clauses (positive_rules_map c) g)"
      and ne: "group_clauses (positive_rules_map c) g \<noteq> []"
      by (auto simp: group_strings_def)
    let ?ps = "group_clauses (positive_rules_map c) g"
    have parts: "\<forall>p\<in>set ?ps. p \<noteq> [] \<and> last p \<noteq> CHR '')''"
      using group_clauses_parts[OF positive_rules_map_inv] by blast
    show ?thesis
    proof (cases "length ?ps > 1")
      case True
      from ne parts have "join '' OR '' ?ps \<noteq> []" by (simp add: join_nonempty)
      with True show ?thesis by (auto simp: s render_group_def Cons_eq_append_conv)
    next
      case False
      with ne obtain p where ps: "?ps = [p]" by (cases ?ps) auto
      with parts have "last p \<noteq> CHR '')''" by simp
      then show ?thesis by (auto simp: s ps render_group_def)
    qed
  qed
  then have "''()'' \<notin> set (group_strings c)" by blast
  moreover have "build \<lparr>to_be = [], groups = [], not_to_be = []\<rparr> = Inr ''''"
    by (simp add: build_def positive_rules_map_def)
  ultimately show ?thesis by (simp add: build_eq_spec)
qed

theorem query_builder_flattens_and_joins_witness:
  \<open>build example_ruleset = Inr ''(title:"a" OR title:"b" OR title:"c") AND date:[1900 TO 1950] AND NOT lang:"x" AND NOT lang:"y"''\<close>
  using query_builder_flattens_and_joins[of example_ruleset]
  by (simp add: build_spec_def group_strings_def group_clauses_def keyword_clauses_def render_group_def
      not_clauses_def example_ruleset_def positive_rules_map_def add_rule_def alone_rule_def get_list_def
      field_clause_def not_clause_def date_clause_def empty_logic_def)

subsection \<open>Pagination Engine\<close>

lemma scrape_loop_never_ends:
  "(\<And>k. k \<ge> n \<Longrightarrow> \<exists>j its. post k = Json j \<and> sj_items j = Some its) \<Longrightarrow> scrape_loop fuel post n nf acc = None"
proof (induction fuel arbitrary: n nf acc)
  case 0 show ?case by simp
next
  case (Suc fuel)
  from Suc.prems[of n] obtain j its where j: "post n = Json j" "sj_items j = Some its" by auto
  have "scrape_loop fuel post (Suc n) nf' acc' = None" for nf' acc'
    by (rule Suc.IH) (use Suc.prems in auto)
  with j show ?case by (simp add: Let_def)
qed

text \<open>
  Claim C2 (fails on the code). Over a transport that answers with two non-empty batches
  and then with empty \<open>items\<close> arrays, \<open>_scrape\<close> never terminates: an empty
  \<open>items\<close> array does not end the loop, whose only exits are its exception handlers.
  When a later response carries items again, they are yielded after the empty response.
\<close>

theorem scrape_does_not_stop_on_empty_items:
  "(\<forall>fuel. scrape fuel two_batches_then_empty (AsyncSearch_init plain_options) = None)
   \<and> scrape 5 empty_then_more (AsyncSearch_init plain_options)
       = Some ([Item 1, Item 2, Item 3, Item 4], 5, PyInt 3)"
proof -
  have "scrape fuel two_batches_then_empty (AsyncSearch_init plain_options) = None" for fuel
    unfolding scrape_def
    by (rule scrape_loop_never_ends) (auto simp: two_batches_then_empty_def)
  moreover have "scrape 5 empty_then_more (AsyncSearch_init plain_options)
       = Some ([Item 1, Item 2, Item 3, Item 4], 5, PyInt 3)"
    by (simp add: scrape_def empty_then_more_def eval_nat_numeral Let_def)
  ultimately show ?thesis by blast
qed

text \<open>
  Claim C4 (fails on the code). With a fixed result size the payload's \<open>scroll\<close> entry
  is the string \<open>False\<close>, which is not the boolean the loop tests with \<open>is False\<close>:
  over a transport that answers two batches of hits and then none, the loop issues three
  requests and yields both batches.
\<close>

theorem fts_fixed_size_keeps_scrolling:
  "fts_data (AsyncSearch_init fixed_size_options) ''scroll'' = Some (PyStr ''False'')
   \<and> full_text_search 3 hits_twice (AsyncSearch_init fixed_size_options) = Some ([[1], [2]], 3)"
proof -
  have s: "params (AsyncSearch_init fixed_size_options) ''size'' = Some (PyStr ''1'')"
    by (simp add: AsyncSearch_init_def fixed_size_options_def plain_options_def normalized_params_def
        default_params_def map_add_def)
  then have d: "fts_data (AsyncSearch_init fixed_size_options) ''scroll'' = Some (PyStr ''False'')"
    by (simp add: fts_data_def Let_def)
  have "fts_loop 3 hits_twice data 0 [] = Some ([[1], [2]], 3)" if "data ''scroll'' = Some (PyStr ''False'')" for data
    using that by (simp add: hits_twice_def eval_nat_numeral)
  from this[of "fts_data (AsyncSearch_init fixed_size_options)"] d
  show ?thesis by (simp add: full_text_search_def)
qed

lemma normalized_params_keeps:
  assumes "params so k = Some v" "k \<noteq> ''index''" "k = ''scope'' \<longrightarrow> params so ''index'' = None"
  shows "normalized_params so k = Some v"
  using assms by (auto simp: normalized_params_def Let_def split: option.splits if_splits)

text \<open>
  Claim C10. The final parameter map is the injected defaults (\<open>q\<close>, and \<open>count\<close> or
  \<open>output\<close>) updated with the caller's parameters as normalised, so every
  caller-supplied entry other than the renamed \<open>index\<close> (and \<open>scope\<close> when
  \<open>index\<close> is given) keeps its value; in particular a caller-supplied \<open>q\<close>
  replaces the query string of the options, which is used only when the caller gave none.
\<close>

theorem caller_params_take_precedence:
  "params (AsyncSearch_init so) = default_params so ++ normalized_params so
   \<and> dom (default_params so) \<subseteq> {''q'', ''count'', ''output''}
   \<and> (\<forall>k v. params so k = Some v \<and> k \<noteq> ''index'' \<and> (k = ''scope'' \<longrightarrow> params so ''index'' = None)
        \<longrightarrow> params (AsyncSearch_init so) k = Some v)
   \<and> (\<forall>v. params so ''q'' = Some v \<longrightarrow> params (AsyncSearch_init so) ''q'' = Some v)
   \<and> (params so ''q'' = None \<longrightarrow> params (AsyncSearch_init so) ''q'' = Some (PyStr (init_query so)))"
proof -
  have a: "params (AsyncSearch_init so) = default_params so ++ normalized_params so"
    by (simp add: AsyncSearch_init_def)
  have b: "dom (default_params so) \<subseteq> {''q'', ''count'', ''output''}"
    by (auto simp: default_params_def Let_def split: if_splits)
  have c: "params (AsyncSearch_init so) k = Some v"
    if "params so k = Some v" "k \<noteq> ''index''" "k = ''scope'' \<longrightarrow> params so ''index'' = None" for k v
    using normalized_params_keeps[OF that] by (simp add: a map_add_def)
  have d: "params (AsyncSearch_init so) ''q'' = Some (PyStr (init_query so))" if "params so ''q'' = None"
  proof -
    from that have "normalized_params so ''q'' = None"
      by (auto simp: normalized_params_def Let_def split: option.splits)
    then show ?thesis by (simp add: a map_add_def default_params_def Let_def)
  qed
  from a b c d show ?thesis by simp
qed

theorem caller_params_take_precedence_witness:
  "params override_options ''q'' = Some (PyStr ''dogs'')
   \<and> params (AsyncSearch_init override_options) ''q'' = Some (PyStr ''dogs'')
   \<and> params override_options ''count'' = Some (PyInt 5)
   \<and> params (AsyncSearch_init override_options) ''count'' = Some (PyInt 5)"
proof -
  have q: "params override_options ''q'' = Some (PyStr ''dogs'')"
    and n: "params override_options ''count'' = Some (PyInt 5)"
    and i: "params override_options ''index'' = None"
    by (simp_all add: override_options_def plain_options_def)
  have "\<forall>k v. params override_options k = Some v \<and> k \<noteq> ''index''
            \<and> (k = ''scope'' \<longrightarrow> params override_options ''index'' = None)
          \<longrightarrow> params (AsyncSearch_init override_options) k = Some v"
    using caller_params_take_precedence[of override_options] by blast
  with q n i have "params (AsyncSearch_init override_options) ''q'' = Some (PyStr ''dogs'')"
    and "params (AsyncSearch_init override_options) ''count'' = Some (PyInt 5)"
    by simp_all
  with q n show ?thesis by simp
qed

subsection \<open>Transfer Engine\<close>

lemma foldl_append_chunked: "foldl (@) acc (chunked n xs) = (if n = 0 then acc else acc @ xs)"
proof (induction n xs arbitrary: acc rule: chunked.induct)
  case (1 n xs)
  show ?case
  proof (cases "n = 0 \<or> xs = []")
    case True
    then show ?thesis by (auto simp: chunked.simps[of n xs])
  next
    case False
    then show ?thesis using 1[OF False] by (simp add: chunked.simps[of n xs])
  qed
qed


lemma requests_simps [simp]:
  "requests (w\<lparr>events := es\<rparr>) = requests_of es"
  "requests (w\<lparr>files := fs\<rparr>) = requests w"
  "requests (w\<lparr>mtimes := ms\<rparr>) = requests w"
  "requests (w\<lparr>stdout_buffer := ob\<rparr>) = requests w"
  "requests (w\<lparr>fileobj_buffer := fb\<rparr>) = requests w"
  by (simp_all add: requests_def)

lemma regular_file_simps [simp]:
  "regular_file (w\<lparr>events := es\<rparr>) p = regular_file w p"
  "regular_file (w\<lparr>mtimes := ms\<rparr>) p = regular_file w p"
  "regular_file (w\<lparr>stdout_buffer := ob\<rparr>) p = regular_file w p"
  "regular_file (w\<lparr>fileobj_buffer := fb\<rparr>) p = regular_file w p"
  by (simp_all add: regular_file_def)

lemma ledger_check_world: "ledger_check opts fp w = (r, w1) \<Longrightarrow> w1 = w"
  by (auto simp: ledger_check_def split: if_splits option.splits)

lemma skip_checks_world: "skip_checks md5_hexdigest self opts fp w = (r, w1) \<Longrightarrow> w1 = w"
  by (auto simp: skip_checks_def Let_def split: if_splits option.splits prod.splits sum.splits bool.splits
      dest: ledger_check_world)


lemma download_proceeds:
  "resolve_path self opts w = Inr fp \<Longrightarrow> skip_checks md5_hexdigest self opts fp w = (Inr False, w)
     \<Longrightarrow> download md5_hexdigest transport self opts w = retry_loop transport self fp [] opts w"
  by (simp add: download_def)

lemma retry_loop_success:
  "attempt transport self opts fp h w = (Inr r, h1, w1)
     \<Longrightarrow> retry_loop transport self fp h opts w = (Inr r, opts, w1)"
  by (simp add: retry_loop.simps[of transport self fp h opts w])

subsubsection \<open>The parent directory stays creatable\<close>

lemma ancestors_shorter: "p \<in> set (ancestors d) \<Longrightarrow> length p < length d"
  by (auto simp: ancestors_def)





lemma parent_ready_retries [simp]:
  "parent_ready (opts\<lparr>retries := k\<rparr>) fp w = parent_ready opts fp w"
  by (simp add: parent_ready_def)

lemma failing_reply_retries [simp]:
  "failing_reply (opts\<lparr>retries := k\<rparr>) r = failing_reply opts r"
  by (simp add: failing_reply_def split: http_reply.splits)


subsubsection \<open>Attempts that fail\<close>












lemma dirname_example: "dirname ''a.txt'' = []"
  by (simp add: dirname_def)





lemma example_world_simps:
  "regular_file partial_world ''a.txt'' = Some ''abc''"
  "files partial_world ''a.txt'' = Some ''abc''"
  "requests partial_world = []"
  "events partial_world = []"
  "regular_file empty_world p = None"
  "events empty_world = []"
  "requests empty_world = []"
  by (simp_all add: partial_world_def empty_world_def requests_def regular_file_def)






subsubsection \<open>The first request and the resumed write\<close>











text \<open>
  Claim C3 (fails on the code). The local file holds \<open>abc\<close>, the remote md5 is the digest
  of \<open>abc\<close> and checksum mode is on; \<open>download\<close> does not skip: it issues a full request
  and returns \<open>True\<close>. The digest is never computed, since \<open>utils.get_md5\<close> is called
  without \<open>await\<close>.
\<close>

theorem checksum_match_is_downloaded_again:
  "files partial_world ''a.txt'' = Some ''abc''
   \<and> file_md5 abc_file = Some (get_md5 example_hexdigest ''abc'')
   \<and> checksum (default_options\<lparr>checksum := True\<rparr>)
   \<and> fst (download example_hexdigest abc_server abc_file (default_options\<lparr>checksum := True\<rparr>) partial_world)
        = Inr Ret_True
   \<and> requests (snd (snd (download example_hexdigest abc_server abc_file
        (default_options\<lparr>checksum := True\<rparr>) partial_world)))
        = [\<lparr>req_url = file_url abc_file, req_headers = []\<rparr>]"
proof -
  let ?opts = "default_options\<lparr>checksum := True\<rparr>"
  have p: "resolve_path abc_file ?opts partial_world = Inr ''a.txt''"
    by (simp add: resolve_path_def abc_file_def example_file_def default_options_def)
  have s: "skip_checks example_hexdigest abc_file ?opts ''a.txt'' partial_world = (Inr False, partial_world)"
    by (simp add: skip_checks_def ledger_check_def default_options_def example_world_simps)
  have "\<exists>w1. attempt abc_server abc_file ?opts ''a.txt'' [] partial_world = (Inr Ret_True, [], w1)
         \<and> requests w1 = [\<lparr>req_url = file_url abc_file, req_headers = []\<rparr>]"
    by (simp add: attempt_def attempt_body_def dirname_example resume_headers_def client_get_def
        abc_server_def Let_def write_body_def open_for_writing_def default_options_def
        example_world_simps)
  then obtain w1 where a: "attempt abc_server abc_file ?opts ''a.txt'' [] partial_world = (Inr Ret_True, [], w1)"
    and r: "requests w1 = [\<lparr>req_url = file_url abc_file, req_headers = []\<rparr>]" by blast
  have o: "checksum ?opts" by simp
  have m: "file_md5 abc_file = Some (get_md5 example_hexdigest ''abc'')" by (simp add: abc_file_def)
  show ?thesis
    by (simp add: download_proceeds[OF p s] retry_loop_success[OF a] r example_world_simps o m)
qed

text \<open>
  Claim C8 (fails on the code). The ledger \<open>_checksum_archive.txt\<close> holds the line
  \<open>a.txt\<close> and the destination \<open>a.txt\<close> exists; \<open>download\<close> does not skip: the lines
  read keep their newline, so the path is not among them, and the file is requested
  again. Without a ledger file the call raises \<open>FileNotFoundError\<close> instead of creating
  the ledger.
\<close>

theorem recorded_path_is_downloaded_again:
  "files ledger_world checksum_archive_filename = Some (''a.txt'' @ [CHR 0x0A])
   \<and> files ledger_world ''a.txt'' = Some ''abc''
   \<and> checksum_archive (default_options\<lparr>checksum_archive := True\<rparr>)
   \<and> fst (download example_hexdigest abc_server abc_file (default_options\<lparr>checksum_archive := True\<rparr>) ledger_world)
        = Inr Ret_True
   \<and> requests (snd (snd (download example_hexdigest abc_server abc_file
        (default_options\<lparr>checksum_archive := True\<rparr>) ledger_world)))
        = [\<lparr>req_url = file_url abc_file, req_headers = []\<rparr>]
   \<and> fst (download example_hexdigest abc_server abc_file (default_options\<lparr>checksum_archive := True\<rparr>) partial_world)
        = Inl (FileNotFoundError checksum_archive_filename)"
proof -
  let ?opts = "default_options\<lparr>checksum_archive := True\<rparr>"
  have f: "files ledger_world checksum_archive_filename = Some (''a.txt'' @ [CHR 0x0A])"
    "files ledger_world ''a.txt'' = Some ''abc''" "requests ledger_world = []" "events ledger_world = []"
    "regular_file ledger_world checksum_archive_filename = Some (''a.txt'' @ [CHR 0x0A])"
    "regular_file ledger_world ''a.txt'' = Some ''abc''"
    by (simp_all add: ledger_world_def empty_world_def checksum_archive_filename_def requests_def
        regular_file_def)
  have p: "resolve_path abc_file ?opts w = Inr ''a.txt''" for w
    by (simp add: resolve_path_def abc_file_def example_file_def default_options_def)
  have s: "skip_checks example_hexdigest abc_file ?opts ''a.txt'' ledger_world = (Inr False, ledger_world)"
    by (simp add: skip_checks_def ledger_check_def default_options_def f)
  have "\<exists>w1. attempt abc_server abc_file ?opts ''a.txt'' [] ledger_world = (Inr Ret_True, [], w1)
         \<and> requests w1 = [\<lparr>req_url = file_url abc_file, req_headers = []\<rparr>]"
    by (simp add: attempt_def attempt_body_def dirname_example resume_headers_def client_get_def
        abc_server_def Let_def write_body_def open_for_writing_def default_options_def f)
  then obtain w1 where a: "attempt abc_server abc_file ?opts ''a.txt'' [] ledger_world = (Inr Ret_True, [], w1)"
    and r: "requests w1 = [\<lparr>req_url = file_url abc_file, req_headers = []\<rparr>]" by blast
  have "skip_checks example_hexdigest abc_file ?opts ''a.txt'' partial_world
        = (Inl (FileNotFoundError checksum_archive_filename), partial_world)"
    by (simp add: skip_checks_def ledger_check_def default_options_def
        partial_world_def empty_world_def checksum_archive_filename_def regular_file_def)
  then have n: "fst (download example_hexdigest abc_server abc_file ?opts partial_world)
        = Inl (FileNotFoundError checksum_archive_filename)"
    by (simp add: download_def p)
  show ?thesis
    by (simp add: download_proceeds[OF p s] retry_loop_success[OF a] r f n)
qed


subsubsection \<open>The skip checks and the parent directory on further inputs\<close>

text \<open>
  When an ancestor of the destination's parent directory is a regular file, every attempt
  raises \<open>NotADirectoryError\<close> from \<open>os.makedirs\<close> before any request is issued.
\<close>

theorem attempt_blocked_by_ancestor:
  assumes "p \<in> set (ancestors (dirname fp))" and "regular_file w p \<noteq> None"
    and "\<not> return_responses opts"
  shows "attempt transport self opts fp h w = (Inl (NotADirectoryError (dirname fp)), h, w)"
proof -
  from assms(1) have "length p < length (dirname fp)" by (rule ancestors_shorter)
  then have d: "dirname fp \<noteq> []" by auto
  from assms(1,2) have "filter (\<lambda>p. regular_file w p \<noteq> None) (ancestors (dirname fp)) \<noteq> []"
    by (auto simp: filter_empty_conv)
  then have "makedirs w (dirname fp) = Some (NotADirectoryError (dirname fp))"
    by (simp add: makedirs_def)
  with d assms(3) show ?thesis by (simp add: attempt_def Let_def)
qed

lemma ancestors_pq: "ancestors ''p/q'' = [''p'']"
  by (simp add: ancestors_def upt_rec[of 1] upt_rec[of 2] upt_rec[of 3] numeral_2_eq_2 numeral_3_eq_3)

theorem attempt_blocked_by_ancestor_witness:
  "''p'' \<in> set (ancestors (dirname ''p/q/b.txt''))
   \<and> regular_file blocked_world ''p'' = Some ''x''
   \<and> \<not> return_responses default_options
   \<and> attempt abc_server abc_file default_options ''p/q/b.txt'' [] blocked_world
       = (Inl (NotADirectoryError ''p/q''), [], blocked_world)"
proof -
  have d: "dirname ''p/q/b.txt'' = ''p/q''" by (simp add: dirname_def)
  have a: "''p'' \<in> set (ancestors (dirname ''p/q/b.txt''))" by (simp add: d ancestors_pq)
  have r: "regular_file blocked_world ''p'' = Some ''x''"
    by (simp add: blocked_world_def empty_world_def regular_file_def)
  then have r': "regular_file blocked_world ''p'' \<noteq> None" by simp
  have o: "\<not> return_responses default_options" by (simp add: default_options_def)
  from attempt_blocked_by_ancestor[OF a r' o, of abc_server abc_file "[]"] a r o
  show ?thesis by (simp add: d)
qed

text \<open>
  A ledger hit as the code finds it: when the destination path is one of the lines
  \<open>readlines\<close> returns (only a last line without line end can be), \<open>download\<close>
  returns \<open>None\<close> without hashing and without a request.
\<close>

theorem ledger_line_is_skipped:
  assumes "resolve_path self opts w = Inr fp" and "\<not> return_responses opts"
    and "checksum_archive opts"
    and "regular_file w checksum_archive_filename = Some text"
    and "fp \<in> set (readlines text)"
  shows "download md5_hexdigest transport self opts w = (Inr Ret_None, opts, w)"
  using assms by (simp add: download_def skip_checks_def ledger_check_def)

theorem ledger_line_is_skipped_witness:
  "resolve_path abc_file (default_options\<lparr>checksum_archive := True\<rparr>) cr_ledger_world = Inr ''a.txt''
   \<and> regular_file cr_ledger_world checksum_archive_filename = Some (''b.txt'' @ [CHR 0x0D] @ ''a.txt'')
   \<and> readlines (''b.txt'' @ [CHR 0x0D] @ ''a.txt'') = [''b.txt'' @ [CHR 0x0A], ''a.txt'']
   \<and> download example_hexdigest abc_server abc_file (default_options\<lparr>checksum_archive := True\<rparr>)
         cr_ledger_world
       = (Inr Ret_None, default_options\<lparr>checksum_archive := True\<rparr>, cr_ledger_world)"
proof -
  let ?opts = "default_options\<lparr>checksum_archive := True\<rparr>"
  have p: "resolve_path abc_file ?opts cr_ledger_world = Inr ''a.txt''"
    by (simp add: resolve_path_def abc_file_def example_file_def default_options_def)
  have o: "\<not> return_responses ?opts" "checksum_archive ?opts" by (simp_all add: default_options_def)
  have f: "regular_file cr_ledger_world checksum_archive_filename = Some (''b.txt'' @ [CHR 0x0D] @ ''a.txt'')"
    by (simp add: cr_ledger_world_def empty_world_def checksum_archive_filename_def regular_file_def)
  have l: "readlines (''b.txt'' @ [CHR 0x0D] @ ''a.txt'') = [''b.txt'' @ [CHR 0x0A], ''a.txt'']" by simp
  then have m: "''a.txt'' \<in> set (readlines (''b.txt'' @ [CHR 0x0D] @ ''a.txt''))" by simp
  from ledger_line_is_skipped[OF p o f m, of example_hexdigest abc_server] p f l
  show ?thesis by simp
qed

subsubsection \<open>The stored name\<close>

lemma find_file_name:
  "find_file fs n ''name'' = None \<or> find_file fs n ''name'' = Some (PyStr n)"
  by (induction fs) auto

lemma stored_name_stripped:
  assumes "case file_metadata of None \<Rightarrow> True | Some m \<Rightarrow> m ''name'' = None"
  shows "stored_name item_files name file_metadata = PyStr (strip_slashes name)"
proof -
  have n: "(if name \<noteq> [] then strip_slashes name else name) = strip_slashes name"
    by (simp add: strip_slashes_def)
  let ?fm0 = "case file_metadata of None \<Rightarrow> Map.empty | Some m \<Rightarrow> m"
  from assms have fm0: "?fm0 ''name'' = None" by (simp split: option.splits)
  have ff: "(case find_file item_files (strip_slashes name) ''name'' of
                    None \<Rightarrow> PyStr (strip_slashes name) | Some v \<Rightarrow> v) = PyStr (strip_slashes name)"
    using find_file_name[of item_files "strip_slashes name"] by (elim disjE) simp_all
  show ?thesis
  proof (cases "?fm0 = Map.empty")
    case True
    then show ?thesis
      unfolding stored_name_def Let_def n by (simp only: refl if_True ff)
  next
    case False
    then show ?thesis
      unfolding stored_name_def Let_def n by (simp only: if_False fm0 option.case)
  qed
qed

lemma strip_slashes_Nil: "strip_slashes s = [] \<longleftrightarrow> set s \<subseteq> {CHR ''/''}"
proof -
  let ?P = "\<lambda>c. c = CHR ''/''"
  have a: "dropWhile ?P (rev (dropWhile ?P s)) = [] \<longleftrightarrow> dropWhile ?P s = []"
  proof (cases "dropWhile ?P s = []")
    case True
    show ?thesis unfolding True by simp
  next
    case False
    then have "\<not> ?P (hd (dropWhile ?P s))" by (rule hd_dropWhile)
    moreover from False have "hd (dropWhile ?P s) \<in> set (rev (dropWhile ?P s))" by simp
    ultimately have "\<not> (\<forall>x\<in>set (rev (dropWhile ?P s)). ?P x)" by (rule_tac notI) (drule (1) bspec, simp)
    then have "dropWhile ?P (rev (dropWhile ?P s)) \<noteq> []" by (simp only: dropWhile_eq_Nil_conv not_False_eq_True)
    with False show ?thesis by (simp del: dropWhile_eq_Nil_conv)
  qed
  have "strip_slashes s = [] \<longleftrightarrow> dropWhile ?P s = []"
    unfolding strip_slashes_def by (simp only: rev_is_Nil_conv a)
  also have "\<dots> \<longleftrightarrow> (\<forall>x\<in>set s. x = CHR ''/'')" by (simp only: dropWhile_eq_Nil_conv)
  also have "\<dots> \<longleftrightarrow> set s \<subseteq> {CHR ''/''}" by (simp only: subset_eq singleton_iff)
  finally show ?thesis .
qed


lemma strip_slashes_ends:
  assumes "strip_slashes s \<noteq> []"
  shows "hd (strip_slashes s) \<noteq> CHR ''/'' \<and> last (strip_slashes s) \<noteq> CHR ''/''"
proof -
  let ?P = "\<lambda>c. c = CHR ''/''"
  let ?t = "dropWhile ?P s"
  let ?u = "dropWhile ?P (rev ?t)"
  from assms have u: "?u \<noteq> []" unfolding strip_slashes_def by (simp only: rev_is_Nil_conv not_False_eq_True)
  have t: "?t \<noteq> []"
  proof
    assume e: "?t = []"
    from u show False unfolding e by simp
  qed
  have "last (rev ?u) = hd ?u" by (rule last_rev)
  moreover have "\<not> ?P (hd ?u)" using u by (rule hd_dropWhile)
  ultimately have l: "last (strip_slashes s) \<noteq> CHR ''/''" unfolding strip_slashes_def by (simp only: simp_thms)
  have "rev (rev ?t) = rev (takeWhile ?P (rev ?t) @ ?u)"
    by (simp only: takeWhile_dropWhile_id)
  then have eq: "?t = rev ?u @ rev (takeWhile ?P (rev ?t))"
    by (simp only: rev_rev_ident rev_append)
  have "rev ?u \<noteq> []" using u by (simp only: rev_is_Nil_conv not_False_eq_True)
  then have "hd (rev ?u @ rev (takeWhile ?P (rev ?t))) = hd (rev ?u)" by (rule hd_append2)
  then have "hd ?t = hd (rev ?u)" using eq by (simp only:)
  moreover have "\<not> ?P (hd ?t)" using t by (rule hd_dropWhile)
  ultimately have h: "hd (strip_slashes s) \<noteq> CHR ''/''" unfolding strip_slashes_def by (simp only: simp_thms)
  from h l show ?thesis by (rule conjI)
qed

text \<open>
  Claim C9 (as amended). When the file metadata passed to the constructor does not carry
  a \<open>name\<close> entry of its own, the stored name is the input without its leading and
  trailing slashes: it neither starts nor ends with a slash, and it is empty exactly when
  the input has no character other than a slash.
\<close>

theorem stored_name_is_stripped:
  assumes "case file_metadata of None \<Rightarrow> True | Some m \<Rightarrow> m ''name'' = None"
  shows "stored_name item_files name file_metadata = PyStr (strip_slashes name)
         \<and> (strip_slashes name = [] \<longleftrightarrow> set name \<subseteq> {CHR ''/''})
         \<and> (strip_slashes name \<noteq> [] \<longrightarrow>
              hd (strip_slashes name) \<noteq> CHR ''/'' \<and> last (strip_slashes name) \<noteq> CHR ''/'')"
proof (intro conjI impI)
  show "stored_name item_files name file_metadata = PyStr (strip_slashes name)"
    by (rule stored_name_stripped[OF assms])
  show "strip_slashes name = [] \<longleftrightarrow> set name \<subseteq> {CHR ''/''}"
    by (rule strip_slashes_Nil)
  show "hd (strip_slashes name) \<noteq> CHR ''/''" if "strip_slashes name \<noteq> []"
    using strip_slashes_ends[OF that] by simp
  show "last (strip_slashes name) \<noteq> CHR ''/''" if "strip_slashes name \<noteq> []"
    using strip_slashes_ends[OF that] by simp
qed

theorem stored_name_is_stripped_witness:
  "stored_name [[''name'' \<mapsto> PyStr ''dir/a.txt'', ''size'' \<mapsto> PyStr ''3'']] ''/dir/a.txt/'' None
     = PyStr ''dir/a.txt''
   \<and> strip_slashes ''/dir/a.txt/'' = ''dir/a.txt''"
proof -
  have s: "strip_slashes ''/dir/a.txt/'' = ''dir/a.txt''" by (simp add: strip_slashes_def)
  have "case (None :: (string \<rightharpoonup> pyval) option) of None \<Rightarrow> True | Some m \<Rightarrow> m ''name'' = None" by simp
  from stored_name_is_stripped[OF this, of "[[''name'' \<mapsto> PyStr ''dir/a.txt'', ''size'' \<mapsto> PyStr ''3'']]" "''/dir/a.txt/''"]
  show ?thesis by (simp add: s)
qed

text \<open>
  Claim C9 as stated fails for a name made of slashes: the stored name of \<open>/\<close> is the
  empty string.
\<close>

theorem stored_name_of_slash_is_empty:
  "stored_name [] ''/'' None = PyStr []"
proof -
  have "strip_slashes ''/'' = []" by (simp add: strip_slashes_def)
  then show ?thesis unfolding stored_name_def Let_def by simp
qed

subsection \<open>Further properties of the loops and of \<open>get_md5\<close>\<close>

text \<open>
  A response without hits ends the full-text loop at once: nothing is yielded for it and
  no further request is issued, whatever the \<open>scroll\<close> entry.
\<close>

theorem fts_stops_on_response_without_hits:
  assumes "post n data = Json j" and "fj_hits j = None \<or> fj_hits j = Some []"
  shows "fts_loop (Suc fuel) post data n acc = Some (acc, Suc n)"
  using assms by auto

theorem fts_stops_on_response_without_hits_witness:
  "no_hits 0 (fts_data plain_options) = Json (Fts_json PyNone (Some []))
   \<and> fj_hits (Fts_json PyNone (Some ([] :: nat list))) = Some []
   \<and> full_text_search 7 no_hits plain_options = Some ([], 1)"
proof -
  have a: "no_hits 0 (fts_data plain_options) = Json (Fts_json PyNone (Some []))"
    by (simp add: no_hits_def)
  have b: "fj_hits (Fts_json PyNone (Some ([] :: nat list))) = None
           \<or> fj_hits (Fts_json PyNone (Some ([] :: nat list))) = Some []" by simp
  from fts_stops_on_response_without_hits[where post = no_hits and n = 0
      and data = "fts_data plain_options" and j = "Fts_json PyNone (Some [])" and fuel = 6
      and acc = "[]", OF a b] a
  show ?thesis by (simp add: full_text_search_def eval_nat_numeral)
qed

text \<open>
  The bulk-scrape loop ends with the first request that raises, and with the first
  response that has no \<open>items\<close> key; the records yielded before are kept.
\<close>

theorem scrape_stops_on_error:
  "(post n = Raises \<longrightarrow> scrape_loop (Suc fuel) post n num_found acc = Some (acc, Suc n, num_found))
   \<and> (post n = Json j \<and> sj_items j = None \<and> \<not> py_truthy (sj_error j) \<longrightarrow>
        (\<exists>t. scrape_loop (Suc fuel) post n num_found acc = Some (acc, Suc n, t)))"
  by (auto simp: Let_def)

theorem scrape_stops_on_error_witness:
  "raises_at_once (scrape_params plain_options) 0 = Raises
   \<and> scrape 4 raises_at_once plain_options = Some ([], 1, PyNone)"
proof -
  have a: "raises_at_once (scrape_params plain_options) 0 = Raises" by (simp add: raises_at_once_def)
  have "raises_at_once (scrape_params plain_options) 0 = Raises \<longrightarrow>
      scrape_loop (Suc 3) (raises_at_once (scrape_params plain_options)) 0 PyNone ([] :: nat scrape_yield list)
        = Some ([], Suc 0, PyNone)"
    using scrape_stops_on_error[of "raises_at_once (scrape_params plain_options)" 0 3 PyNone "[]"] by blast
  with a show ?thesis by (simp add: scrape_def eval_nat_numeral)
qed

text \<open>
  \<open>get_md5\<close> returns the digest of the whole content, whatever its length: reading in
  chunks of 8192 bytes feeds the hash every byte once, in order.
\<close>

theorem get_md5_digest_of_content:
  "get_md5 md5_hexdigest content = md5_hexdigest content"
  by (simp add: get_md5_def foldl_append_chunked)

end
